theory Spec2Isabelle
  imports Main
begin

section \<open>The native container\<close>

text \<open>
  \<open>bind_map\<close> is a template over the container type \<open>Map\<close>; of that type it uses
  \<open>size\<close>, \<open>empty\<close>, \<open>find\<close>, \<open>begin\<close>, \<open>end\<close>, \<open>erase\<close>, \<open>emplace\<close> and \<open>operator[]\<close>.

  Modelled from the spec: the native container (the template argument \<open>Map\<close>, which is
  not part of \<open>bind_map.h\<close>): "a set of (Key, Value) entries, Key unique, iteration order
  equal to the container's native order". A container is the list of its entries in
  iteration order; an iterator is a position in that list, \<open>begin\<close> is position 0 and
  \<open>end\<close> is the position after the last entry. Where the container puts a new entry is
  the container's business (sorted position for \<open>std::map\<close>, the back for an
  insertion-ordered map): it is the parameter \<open>place\<close> of the traits below. Two keys
  are the same key when they are equal.
\<close>

type_synonym ('k, 'v) Map = "('k \<times> 'v) list"

type_synonym iterator = nat

text \<open>
  What the template arguments provide: the two capabilities of \<open>Value\<close> that
  \<open>bind_map\<close> asks of \<open>detail::is_copy_assignable_v\<close> and
  \<open>detail::is_copy_constructible_v\<close>, the value-initialised \<open>Value\<close> that
  \<open>operator[]\<close> stores for a new key, the container's placement of a new key among the
  keys already stored, and the type caster that converts a value of the foreign runtime
  (\<open>handle\<close>) to a \<open>Key\<close>, or fails.
\<close>

record ('h, 'k, 'v) traits =
  is_copy_assignable_v :: bool
  is_copy_constructible_v :: bool
  default_value :: 'v
  place :: "'k \<Rightarrow> 'k list \<Rightarrow> nat"
  key_caster :: "'h \<Rightarrow> 'k option"

definition m_size :: "('k, 'v) Map \<Rightarrow> nat" where
  "m_size m = length m"

definition m_empty :: "('k, 'v) Map \<Rightarrow> bool" where
  "m_empty m = (m = [])"

definition m_begin :: "('k, 'v) Map \<Rightarrow> iterator" where
  "m_begin m = 0"

definition m_end :: "('k, 'v) Map \<Rightarrow> iterator" where
  "m_end m = length m"

fun m_find :: "('k, 'v) Map \<Rightarrow> 'k \<Rightarrow> iterator" where
  "m_find [] k = 0"
| "m_find (e # es) k = (if fst e = k then 0 else Suc (m_find es k))"

definition m_erase :: "('k, 'v) Map \<Rightarrow> iterator \<Rightarrow> ('k, 'v) Map" where
  "m_erase m it = take it m @ drop (Suc it) m"

text \<open>A new entry goes in front of the entry at position \<open>p\<close>, or to the back.\<close>

definition insert_at :: "nat \<Rightarrow> 'a \<Rightarrow> 'a list \<Rightarrow> 'a list" where
  "insert_at p e m = take p m @ e # drop p m"

text \<open>
  \<open>m.emplace(k, v)\<close> returns the pair of an iterator and a flag: the entry with key \<open>k\<close>
  and \<open>false\<close> when the key is already stored (the container is then unchanged), the
  new entry and \<open>true\<close> otherwise.
\<close>

definition m_emplace ::
  "('h, 'k, 'v) traits \<Rightarrow> ('k, 'v) Map \<Rightarrow> 'k \<Rightarrow> 'v \<Rightarrow> ('k, 'v) Map \<times> iterator \<times> bool" where
  "m_emplace tr m k v =
     (let it = m_find m k in
      if it \<noteq> m_end m then (m, it, False)
      else (let p = min (place tr k (map fst m)) (length m)
            in (insert_at p (k, v) m, p, True)))"

text \<open>
  \<open>m[k]\<close>: the position of the entry with key \<open>k\<close>, which is created with a
  value-initialised \<open>Value\<close> when the key is not stored.
\<close>

definition m_subscript ::
  "('h, 'k, 'v) traits \<Rightarrow> ('k, 'v) Map \<Rightarrow> 'k \<Rightarrow> ('k, 'v) Map \<times> iterator" where
  "m_subscript tr m k =
     (case m_emplace tr m k (default_value tr) of (m', it, _) \<Rightarrow> (m', it))"

text \<open>
  Copy assignment through the reference that \<open>m[k]\<close> returns: the value stored at the
  position becomes \<open>v\<close>, the key stays.
\<close>

definition assign :: "('k, 'v) Map \<Rightarrow> iterator \<Rightarrow> 'v \<Rightarrow> ('k, 'v) Map" where
  "assign m it v = m[it := (fst (m ! it), v)]"

text \<open>The invariant of the data model: keys are unique.\<close>

definition wf_Map :: "('k, 'v) Map \<Rightarrow> bool" where
  "wf_Map m = distinct (map fst m)"

section \<open>The iterator-wrapping facility\<close>

text \<open>
  Modelled from the spec: \<open>make_iterator\<close>, \<open>make_key_iterator\<close> and
  \<open>make_value_iterator\<close> of \<open>nanobind/make_iterator.h\<close>, which is not part of
  \<open>bind_map.h\<close>: "converts native iterator pairs into lazy sequences, in three flavors:
  whole entries, keys-only, values-only". The sequence is modelled by the list of the
  elements it yields, from the first iterator up to the second, in the container as it is
  when the sequence is made; changing the container while a sequence is half-way is
  outside the model.
\<close>

definition make_iterator :: "('k, 'v) Map \<Rightarrow> iterator \<Rightarrow> iterator \<Rightarrow> ('k \<times> 'v) list" where
  "make_iterator m b e = take (e - b) (drop b m)"

definition make_key_iterator :: "('k, 'v) Map \<Rightarrow> iterator \<Rightarrow> iterator \<Rightarrow> 'k list" where
  "make_key_iterator m b e = map fst (take (e - b) (drop b m))"

definition make_value_iterator :: "('k, 'v) Map \<Rightarrow> iterator \<Rightarrow> iterator \<Rightarrow> 'v list" where
  "make_value_iterator m b e = map snd (take (e - b) (drop b m))"

section \<open>The operations bound on the map\<close>

datatype error = key_error | type_error

text \<open>
  An operation that takes \<open>Map &m\<close> returns its result, or the exception it throws,
  together with the container as it leaves it.
\<close>

type_synonym ('a, 'k, 'v) outcome = "(error + 'a) \<times> ('k, 'v) Map"

definition Map_init :: "('k, 'v) Map" where
  "Map_init = []"

definition Map_len :: "('k, 'v) Map \<Rightarrow> nat" where
  "Map_len m = m_size m"

definition Map_bool :: "('k, 'v) Map \<Rightarrow> bool" where
  "Map_bool m = (\<not> m_empty m)"

text \<open>The two overloads of \<open>__contains__\<close>, in the order of their registration.\<close>

definition contains_key :: "('k, 'v) Map \<Rightarrow> 'k \<Rightarrow> bool" where
  "contains_key m k = (m_find m k \<noteq> m_end m)"

definition contains_handle :: "('k, 'v) Map \<Rightarrow> 'h \<Rightarrow> bool" where
  "contains_handle m h = False"

text \<open>
  Modelled from the spec: the overload dispatch of the registration facility
  (\<open>class_::def\<close>), which is not part of \<open>bind_map.h\<close>: "first attempt a typed lookup,
  fall back to an always-false match for anything else". An overload is tried by
  converting the argument to its parameter type; the first overload whose conversion
  succeeds is called, and a call that no overload accepts is a type error.
\<close>

fun dispatch :: "('h \<Rightarrow> 'r option) list \<Rightarrow> 'h \<Rightarrow> error + 'r" where
  "dispatch [] h = Inl type_error"
| "dispatch (f # fs) h = (case f h of Some r \<Rightarrow> Inr r | None \<Rightarrow> dispatch fs h)"

definition typed_overload :: "('h \<Rightarrow> 'k option) \<Rightarrow> ('k \<Rightarrow> 'r) \<Rightarrow> 'h \<Rightarrow> 'r option" where
  "typed_overload cast f h = map_option f (cast h)"

definition handle_overload :: "('h \<Rightarrow> 'r) \<Rightarrow> 'h \<Rightarrow> 'r option" where
  "handle_overload f h = Some (f h)"

definition Map_contains :: "('h, 'k, 'v) traits \<Rightarrow> ('k, 'v) Map \<Rightarrow> 'h \<Rightarrow> error + bool" where
  "Map_contains tr m h =
     dispatch [typed_overload (key_caster tr) (contains_key m),
               handle_overload (contains_handle m)] h"

definition Map_iter :: "('k, 'v) Map \<Rightarrow> 'k list" where
  "Map_iter m = make_key_iterator m (m_begin m) (m_end m)"

text \<open>
  \<open>__getitem__\<close> returns a reference to the stored value; the model returns the value
  that the reference reads at the time of the call.
\<close>

definition Map_getitem :: "('k, 'v) Map \<Rightarrow> 'k \<Rightarrow> ('v, 'k, 'v) outcome" where
  "Map_getitem m k =
     (let it = m_find m k in
      if it = m_end m then (Inl key_error, m)
      else (Inr (snd (m ! it)), m))"

definition Map_delitem :: "('k, 'v) Map \<Rightarrow> 'k \<Rightarrow> (unit, 'k, 'v) outcome" where
  "Map_delitem m k =
     (let it = m_find m k in
      if it = m_end m then (Inl key_error, m)
      else (Inr (), m_erase m it))"

text \<open>
  \<open>__setitem__\<close> is bound only when \<open>Value\<close> is copy-assignable or copy-constructible:
  \<open>None\<close> is the binding without the operation. The operation throws nothing, so it
  returns the container alone.
\<close>

definition Map_setitem ::
  "('h, 'k, 'v) traits \<Rightarrow> ('k, 'v) Map \<Rightarrow> 'k \<Rightarrow> 'v \<Rightarrow> ('k, 'v) Map option" where
  "Map_setitem tr m k v =
     (if is_copy_assignable_v tr \<or> is_copy_constructible_v tr then
        Some (if is_copy_assignable_v tr then
                (case m_subscript tr m k of (m', it) \<Rightarrow> assign m' it v)
              else
                (case m_emplace tr m k v of (m', it, inserted) \<Rightarrow>
                   if \<not> inserted then fst (m_emplace tr (m_erase m' it) k v)
                   else m'))
      else None)"

section \<open>Objects of the foreign runtime\<close>

text \<open>
  The views hold a C++ reference to the map (\<open>struct KeyView { Map &map; }\<close>), so what a
  view answers depends on the state of an object it does not own. The objects therefore
  live in a store, and a reference is an address in it.
\<close>

type_synonym addr = nat

datatype KeyView = KeyView addr

datatype ValueView = ValueView addr

datatype ItemView = ItemView addr

text \<open>
  The objects that \<open>bind_map\<close> creates: the map, the three views, and the three kinds of
  iterator (\<open>"KeyIterator"\<close>, \<open>"ValueIterator"\<close>, \<open>"ItemIterator"\<close>), each holding the
  sequence it yields.
\<close>

datatype ('k, 'v) object =
    Map_object "('k, 'v) Map"
  | KeyView_object KeyView
  | ValueView_object ValueView
  | ItemView_object ItemView
  | KeyIterator "'k list"
  | ValueIterator "'v list"
  | ItemIterator "('k \<times> 'v) list"

text \<open>
  The store: the object at each address (\<open>None\<close> once it is destroyed), a new object
  taking the next address, and the keep-alive ties, each a pair of a nurse and the
  patient it keeps alive.
\<close>

record ('k, 'v) heap =
  objects :: "('k, 'v) object option list"
  ties :: "(addr \<times> addr) list"

definition lookup :: "('k, 'v) heap \<Rightarrow> addr \<Rightarrow> ('k, 'v) object option" where
  "lookup h a = (if a < length (objects h) then objects h ! a else None)"

definition alloc :: "('k, 'v) heap \<Rightarrow> ('k, 'v) object \<Rightarrow> addr \<times> ('k, 'v) heap" where
  "alloc h ob = (length (objects h), h\<lparr>objects := objects h @ [Some ob]\<rparr>)"

definition store :: "('k, 'v) heap \<Rightarrow> addr \<Rightarrow> ('k, 'v) object \<Rightarrow> ('k, 'v) heap" where
  "store h a ob = h\<lparr>objects := (objects h)[a := Some ob]\<rparr>"

text \<open>
  Following a \<open>Map &\<close>: the container inside the map object at the address. A reference
  to a destroyed map has no meaning in C++; here it reads \<open>None\<close>.
\<close>

definition deref :: "('k, 'v) heap \<Rightarrow> addr \<Rightarrow> ('k, 'v) Map option" where
  "deref h a = (case lookup h a of Some (Map_object m) \<Rightarrow> Some m | _ \<Rightarrow> None)"

text \<open>
  Modelled from the spec: the lifetime-extension primitive \<open>keep_alive\<close> and the
  destruction of objects by the foreign runtime, which are not part of \<open>bind_map.h\<close>:
  "a lifetime-extension relationship guaranteeing object A is not destroyed while object
  B (which depends on A) is still reachable". An object is live when the runtime holds it
  (a root) or when a live nurse is tied to it; the runtime destroys only objects that are
  not live.
\<close>

definition keep_alive :: "addr \<Rightarrow> addr \<Rightarrow> ('k, 'v) heap \<Rightarrow> ('k, 'v) heap" where
  "keep_alive nurse patient h = h\<lparr>ties := (nurse, patient) # ties h\<rparr>"

inductive live :: "('k, 'v) heap \<Rightarrow> addr list \<Rightarrow> addr \<Rightarrow> bool" where
  root: "a \<in> set roots \<Longrightarrow> live h roots a"
| tied: "live h roots nurse \<Longrightarrow> (nurse, patient) \<in> set (ties h) \<Longrightarrow> live h roots patient"

code_pred live .

definition collect :: "addr list \<Rightarrow> ('k, 'v) heap \<Rightarrow> ('k, 'v) heap" where
  "collect roots h =
     h\<lparr>objects := map (\<lambda>a. if live h roots a then objects h ! a else None)
                      [0..<length (objects h)]\<rparr>"

text \<open>
  Modelled from the spec: a method bound with \<open>keep_alive<0, 1>()\<close> by the registration
  facility (\<open>class_::def\<close>), which is not part of \<open>bind_map.h\<close>: "ties a returned
  object's lifetime to an argument's". The function bound is run on the object \<open>self\<close>,
  what it returns becomes a new object (index 0, the nurse), and that object is tied to
  \<open>self\<close> (index 1, the patient).
\<close>

definition def_keep_alive_0_1 ::
  "(('k, 'v) heap \<Rightarrow> addr \<Rightarrow> ('k, 'v) object option) \<Rightarrow>
   ('k, 'v) heap \<Rightarrow> addr \<Rightarrow> (addr \<times> ('k, 'v) heap) option" where
  "def_keep_alive_0_1 f h self =
     (case f h self of
        None \<Rightarrow> None
      | Some ob \<Rightarrow> (case alloc h ob of (r, h') \<Rightarrow> Some (r, keep_alive r self h')))"

section \<open>The operations bound on the views\<close>

text \<open>
  Each function bound on a view is run on the view object \<open>self\<close> and follows the
  reference \<open>v.map\<close> at the time of the call.
\<close>

definition ItemView_len :: "('k, 'v) heap \<Rightarrow> addr \<Rightarrow> nat option" where
  "ItemView_len h self =
     (case lookup h self of
        Some (ItemView_object (ItemView a)) \<Rightarrow> map_option m_size (deref h a)
      | _ \<Rightarrow> None)"

definition ItemView_iter_fn :: "('k, 'v) heap \<Rightarrow> addr \<Rightarrow> ('k, 'v) object option" where
  "ItemView_iter_fn h self =
     (case lookup h self of
        Some (ItemView_object (ItemView a)) \<Rightarrow>
          map_option (\<lambda>m. ItemIterator (make_iterator m (m_begin m) (m_end m))) (deref h a)
      | _ \<Rightarrow> None)"

definition ItemView_iter ::
  "('k, 'v) heap \<Rightarrow> addr \<Rightarrow> (addr \<times> ('k, 'v) heap) option" where
  "ItemView_iter = def_keep_alive_0_1 ItemView_iter_fn"

definition KeyView_contains_key :: "('k, 'v) heap \<Rightarrow> addr \<Rightarrow> 'k \<Rightarrow> bool option" where
  "KeyView_contains_key h self k =
     (case lookup h self of
        Some (KeyView_object (KeyView a)) \<Rightarrow>
          map_option (\<lambda>m. m_find m k \<noteq> m_end m) (deref h a)
      | _ \<Rightarrow> None)"

definition KeyView_contains_handle :: "('k, 'v) heap \<Rightarrow> addr \<Rightarrow> 'h \<Rightarrow> bool option" where
  "KeyView_contains_handle h self x =
     (case lookup h self of Some (KeyView_object v) \<Rightarrow> Some False | _ \<Rightarrow> None)"

definition KeyView_contains ::
  "('h, 'k, 'v) traits \<Rightarrow> ('k, 'v) heap \<Rightarrow> addr \<Rightarrow> 'h \<Rightarrow> error + bool option" where
  "KeyView_contains tr h self x =
     dispatch [typed_overload (key_caster tr) (KeyView_contains_key h self),
               handle_overload (KeyView_contains_handle h self)] x"

definition KeyView_len :: "('k, 'v) heap \<Rightarrow> addr \<Rightarrow> nat option" where
  "KeyView_len h self =
     (case lookup h self of
        Some (KeyView_object (KeyView a)) \<Rightarrow> map_option m_size (deref h a)
      | _ \<Rightarrow> None)"

definition KeyView_iter_fn :: "('k, 'v) heap \<Rightarrow> addr \<Rightarrow> ('k, 'v) object option" where
  "KeyView_iter_fn h self =
     (case lookup h self of
        Some (KeyView_object (KeyView a)) \<Rightarrow>
          map_option (\<lambda>m. KeyIterator (make_key_iterator m (m_begin m) (m_end m))) (deref h a)
      | _ \<Rightarrow> None)"

definition KeyView_iter ::
  "('k, 'v) heap \<Rightarrow> addr \<Rightarrow> (addr \<times> ('k, 'v) heap) option" where
  "KeyView_iter = def_keep_alive_0_1 KeyView_iter_fn"

definition ValueView_len :: "('k, 'v) heap \<Rightarrow> addr \<Rightarrow> nat option" where
  "ValueView_len h self =
     (case lookup h self of
        Some (ValueView_object (ValueView a)) \<Rightarrow> map_option m_size (deref h a)
      | _ \<Rightarrow> None)"

definition ValueView_iter_fn :: "('k, 'v) heap \<Rightarrow> addr \<Rightarrow> ('k, 'v) object option" where
  "ValueView_iter_fn h self =
     (case lookup h self of
        Some (ValueView_object (ValueView a)) \<Rightarrow>
          map_option (\<lambda>m. ValueIterator (make_value_iterator m (m_begin m) (m_end m)))
            (deref h a)
      | _ \<Rightarrow> None)"

definition ValueView_iter ::
  "('k, 'v) heap \<Rightarrow> addr \<Rightarrow> (addr \<times> ('k, 'v) heap) option" where
  "ValueView_iter = def_keep_alive_0_1 ValueView_iter_fn"

section \<open>The operations of the map that create objects\<close>

text \<open>
  \<open>__iter__\<close> of the map as it is bound, with its \<open>keep_alive<0, 1>()\<close>: the iterator
  object over the keys that \<open>Map_iter\<close> yields.
\<close>

definition Map_iter_fn :: "('k, 'v) heap \<Rightarrow> addr \<Rightarrow> ('k, 'v) object option" where
  "Map_iter_fn h self = map_option (\<lambda>m. KeyIterator (Map_iter m)) (deref h self)"

definition Map_iter_object ::
  "('k, 'v) heap \<Rightarrow> addr \<Rightarrow> (addr \<times> ('k, 'v) heap) option" where
  "Map_iter_object = def_keep_alive_0_1 Map_iter_fn"

text \<open>\<open>new KeyView{m}\<close>: the view refers to the map that the method was called on.\<close>

definition keys_fn :: "('k, 'v) heap \<Rightarrow> addr \<Rightarrow> ('k, 'v) object option" where
  "keys_fn h self = map_option (\<lambda>m. KeyView_object (KeyView self)) (deref h self)"

definition values_fn :: "('k, 'v) heap \<Rightarrow> addr \<Rightarrow> ('k, 'v) object option" where
  "values_fn h self = map_option (\<lambda>m. ValueView_object (ValueView self)) (deref h self)"

definition items_fn :: "('k, 'v) heap \<Rightarrow> addr \<Rightarrow> ('k, 'v) object option" where
  "items_fn h self = map_option (\<lambda>m. ItemView_object (ItemView self)) (deref h self)"

definition Map_keys :: "('k, 'v) heap \<Rightarrow> addr \<Rightarrow> (addr \<times> ('k, 'v) heap) option" where
  "Map_keys = def_keep_alive_0_1 keys_fn"

definition Map_values :: "('k, 'v) heap \<Rightarrow> addr \<Rightarrow> (addr \<times> ('k, 'v) heap) option" where
  "Map_values = def_keep_alive_0_1 values_fn"

definition Map_items :: "('k, 'v) heap \<Rightarrow> addr \<Rightarrow> (addr \<times> ('k, 'v) heap) option" where
  "Map_items = def_keep_alive_0_1 items_fn"

text \<open>
  \<open>__setitem__\<close> and \<open>__delitem__\<close> called on the map object at an address: the
  container inside the object is replaced by the one the operation leaves.
\<close>

definition setitem_at ::
  "('h, 'k, 'v) traits \<Rightarrow> ('k, 'v) heap \<Rightarrow> addr \<Rightarrow> 'k \<Rightarrow> 'v \<Rightarrow> ('k, 'v) heap option" where
  "setitem_at tr h a k v =
     (case deref h a of
        None \<Rightarrow> None
      | Some m \<Rightarrow> map_option (\<lambda>m'. store h a (Map_object m')) (Map_setitem tr m k v))"

definition delitem_at ::
  "('k, 'v) heap \<Rightarrow> addr \<Rightarrow> 'k \<Rightarrow> ((error + unit) \<times> ('k, 'v) heap) option" where
  "delitem_at h a k =
     (case deref h a of
        None \<Rightarrow> None
      | Some m \<Rightarrow> (case Map_delitem m k of (r, m') \<Rightarrow> Some (r, store h a (Map_object m'))))"

text \<open>Running an iterator object to its end: the elements it yields.\<close>

definition yield_keys :: "('k, 'v) heap \<Rightarrow> addr \<Rightarrow> 'k list option" where
  "yield_keys h it = (case lookup h it of Some (KeyIterator ks) \<Rightarrow> Some ks | _ \<Rightarrow> None)"

definition yield_values :: "('k, 'v) heap \<Rightarrow> addr \<Rightarrow> 'v list option" where
  "yield_values h it = (case lookup h it of Some (ValueIterator vs) \<Rightarrow> Some vs | _ \<Rightarrow> None)"

definition yield_items :: "('k, 'v) heap \<Rightarrow> addr \<Rightarrow> ('k \<times> 'v) list option" where
  "yield_items h it = (case lookup h it of Some (ItemIterator es) \<Rightarrow> Some es | _ \<Rightarrow> None)"

text \<open>
  Iterating an object to a list, as \<open>list(x)\<close> does in the foreign runtime: its
  \<open>__iter__\<close> is called and the iterator is run to its end.
\<close>

definition list_Map :: "('k, 'v) heap \<Rightarrow> addr \<Rightarrow> 'k list option" where
  "list_Map h a =
     (case Map_iter_object h a of None \<Rightarrow> None | Some (it, h') \<Rightarrow> yield_keys h' it)"

definition list_KeyView :: "('k, 'v) heap \<Rightarrow> addr \<Rightarrow> 'k list option" where
  "list_KeyView h a =
     (case KeyView_iter h a of None \<Rightarrow> None | Some (it, h') \<Rightarrow> yield_keys h' it)"

definition list_ValueView :: "('k, 'v) heap \<Rightarrow> addr \<Rightarrow> 'v list option" where
  "list_ValueView h a =
     (case ValueView_iter h a of None \<Rightarrow> None | Some (it, h') \<Rightarrow> yield_values h' it)"

definition list_ItemView :: "('k, 'v) heap \<Rightarrow> addr \<Rightarrow> ('k \<times> 'v) list option" where
  "list_ItemView h a =
     (case ItemView_iter h a of None \<Rightarrow> None | Some (it, h') \<Rightarrow> yield_items h' it)"

definition list_keys :: "('k, 'v) heap \<Rightarrow> addr \<Rightarrow> 'k list option" where
  "list_keys h a =
     (case Map_keys h a of None \<Rightarrow> None | Some (kv, h') \<Rightarrow> list_KeyView h' kv)"

definition list_items :: "('k, 'v) heap \<Rightarrow> addr \<Rightarrow> ('k \<times> 'v) list option" where
  "list_items h a =
     (case Map_items h a of None \<Rightarrow> None | Some (iv, h') \<Rightarrow> list_ItemView h' iv)"

section \<open>Reachable states\<close>

text \<open>
  The states of a map that the bound operations reach from the map that \<open>init<>()\<close>
  constructs.
\<close>

inductive reachable :: "('h, 'k, 'v) traits \<Rightarrow> ('k, 'v) Map \<Rightarrow> bool" where
  init: "reachable tr Map_init"
| setitem: "reachable tr m \<Longrightarrow> Map_setitem tr m k v = Some m' \<Longrightarrow> reachable tr m'"
| delitem: "reachable tr m \<Longrightarrow> Map_delitem m k = (r, m') \<Longrightarrow> reachable tr m'"

section \<open>An instance: \<open>std::map\<close> with integer keys\<close>

text \<open>
  \<open>std::map\<close> keeps its entries in ascending order of the keys: a new key goes in front
  of the first key that is not smaller.
\<close>

definition std_map_place :: "'k::linorder \<Rightarrow> 'k list \<Rightarrow> nat" where
  "std_map_place k ks = length (takeWhile (\<lambda>x. x < k) ks)"

text \<open>Values of the foreign runtime, and the caster that accepts the integers among them.\<close>

datatype py_value = py_int int | py_str string | py_none

definition int_caster :: "py_value \<Rightarrow> int option" where
  "int_caster x = (case x of py_int i \<Rightarrow> Some i | _ \<Rightarrow> None)"

text \<open>
  \<open>std::map<int, Value>\<close> for a copy-constructible \<open>Value\<close>, written as a string, that
  is copy-assignable or not.
\<close>

definition int_map :: "bool \<Rightarrow> (py_value, int, string) traits" where
  "int_map assignable =
     \<lparr>is_copy_assignable_v = assignable, is_copy_constructible_v = True,
      default_value = [], place = std_map_place, key_caster = int_caster\<rparr>"

text \<open>A map of that type with two entries, and a store that holds it at address 0.\<close>

definition example_map :: "(int, string) Map" where
  "example_map = [(1, ''a''), (3, ''c'')]"

definition example_heap :: "(int, string) heap" where
  "example_heap = \<lparr>objects = [Some (Map_object example_map)], ties = []\<rparr>"

section \<open>Properties of the container operations\<close>

lemma m_find_le: "m_find m k \<le> length m"
  by (induction m) auto

lemma m_find_end_iff: "(m_find m k = length m) = (k \<notin> fst ` set m)"
  by (induction m) auto

lemma m_find_key: "m_find m k < length m \<Longrightarrow> fst (m ! m_find m k) = k"
  by (induction m) auto

lemma m_find_value: "m_find m k < length m \<Longrightarrow> map_of m k = Some (snd (m ! m_find m k))"
  by (induction m) auto

lemma m_erase_Nil: "m_erase [] i = []"
  by (simp add: m_erase_def)

lemma m_erase_Cons_0: "m_erase (e # es) 0 = es"
  by (simp add: m_erase_def)

lemma m_erase_Cons_Suc: "m_erase (e # es) (Suc i) = e # m_erase es i"
  by (simp add: m_erase_def)

lemma insert_at_length: "length (insert_at p e m) = Suc (length m)"
  by (simp add: insert_at_def)

lemma insert_at_keys:
  "set (map fst (insert_at p (k, v) m)) = insert k (fst ` set m)"
proof -
  have "set (take p m) \<union> set (drop p m) = set m"
    by (metis append_take_drop_id set_append)
  then show ?thesis by (auto simp: insert_at_def)
qed

lemma insert_at_distinct:
  assumes "distinct (map fst m)" and "k \<notin> fst ` set m"
  shows "distinct (map fst (insert_at p (k, v) m))"
proof -
  have "distinct (map fst (take p m) @ map fst (drop p m))"
    using assms(1) by (metis append_take_drop_id map_append)
  moreover have "k \<notin> fst ` set (take p m)" "k \<notin> fst ` set (drop p m)"
    using assms(2) by (auto dest: in_set_takeD in_set_dropD)
  ultimately show ?thesis by (simp add: image_iff insert_at_def)
qed

lemma insert_at_map_of:
  assumes "k \<notin> fst ` set m"
  shows "map_of (insert_at p (k, v) m) = (map_of m)(k \<mapsto> v)"
proof -
  have a: "map_of (take p m) k = None"
    using assms by (auto simp: map_of_eq_None_iff dest: in_set_takeD)
  have "map_of (insert_at p (k, v) m) k' = ((map_of m)(k \<mapsto> v)) k'" for k'
  proof (cases "k' = k")
    case True
    then show ?thesis using a by (simp add: map_add_def insert_at_def)
  next
    case False
    have "map_of m k' = map_of (take p m @ drop p m) k'" by simp
    also have "\<dots> = (map_of (drop p m) ++ map_of (take p m)) k'" by (simp only: map_of_append)
    finally show ?thesis using False by (simp add: map_add_def insert_at_def split: option.splits)
  qed
  then show ?thesis by (rule ext)
qed

lemma erase_find_length:
  "m_find m k < length m \<Longrightarrow> length (m_erase m (m_find m k)) = length m - 1"
  by (simp add: m_erase_def)

lemma erase_find_keys:
  "distinct (map fst m) \<Longrightarrow> fst ` set (m_erase m (m_find m k)) = fst ` set m - {k}"
  by (induction m) (force simp: m_erase_Nil m_erase_Cons_0 m_erase_Cons_Suc)+

lemma erase_find_distinct:
  "distinct (map fst m) \<Longrightarrow> distinct (map fst (m_erase m (m_find m k)))"
  by (induction m) (auto simp: m_erase_Nil m_erase_Cons_0 m_erase_Cons_Suc erase_find_keys)

lemma erase_find_map_of:
  "distinct (map fst m) \<Longrightarrow> map_of (m_erase m (m_find m k)) = (map_of m)(k := None)"
proof (induction m)
  case Nil
  then show ?case by (simp add: m_erase_def)
next
  case (Cons e es)
  obtain a b where e: "e = (a, b)" by (cases e)
  show ?case
  proof (cases "a = k")
    case True
    then have "map_of es k = None" using Cons.prems e by (auto simp: map_of_eq_None_iff)
    then show ?thesis using True e by (auto simp: m_erase_Cons_0)
  next
    case False
    then show ?thesis using Cons e by (auto simp: m_erase_Cons_Suc)
  qed
qed

lemma erase_find_map_of_other:
  "k' \<noteq> k \<Longrightarrow> map_of (m_erase m (m_find m k)) k' = map_of m k'"
  by (induction m) (auto simp: m_erase_Cons_0 m_erase_Cons_Suc m_erase_def)

lemma assign_length: "length (assign m it v) = length m"
  by (simp add: assign_def)

lemma assign_keys: "map fst (assign m it v) = map fst m"
  by (cases "it < length m") (simp_all add: assign_def map_update list_update_same_conv list_update_beyond)

lemma assign_find_map_of:
  "m_find m k < length m \<Longrightarrow> map_of (assign m (m_find m k) v) = (map_of m)(k \<mapsto> v)"
  by (induction m) (auto simp: assign_def)

lemma getitem_map_of:
  "fst (Map_getitem m k) = (case map_of m k of None \<Rightarrow> Inl key_error | Some v \<Rightarrow> Inr v)"
proof (cases "m_find m k = length m")
  case True
  then have "map_of m k = None" by (simp add: m_find_end_iff map_of_eq_None_iff)
  then show ?thesis using True by (simp add: Map_getitem_def m_end_def)
next
  case False
  then have "m_find m k < length m" using m_find_le [of m k] by simp
  then show ?thesis using False by (simp add: Map_getitem_def m_end_def m_find_value)
qed

lemma contains_key_map_of: "contains_key m k = (map_of m k \<noteq> None)"
  by (simp add: contains_key_def m_end_def m_find_end_iff map_of_eq_None_iff)

section \<open>What \<open>__setitem__\<close> leaves in the container\<close>

lemma emplace_present:
  "k \<in> fst ` set m \<Longrightarrow> m_emplace tr m k v = (m, m_find m k, False)"
  by (simp add: m_emplace_def m_end_def m_find_end_iff)

lemma emplace_absent:
  "k \<notin> fst ` set m \<Longrightarrow>
   m_emplace tr m k v =
     (let p = min (place tr k (map fst m)) (length m)
      in (insert_at p (k, v) m, p, True))"
  by (simp add: m_emplace_def m_end_def m_find_end_iff)

lemma assign_inserted:
  "p \<le> length m \<Longrightarrow> assign (insert_at p (k, d) m) p v = insert_at p (k, v) m"
  by (simp add: assign_def insert_at_def nth_append list_update_append)

lemma setitem_assign_present:
  assumes "is_copy_assignable_v tr" and "k \<in> fst ` set m"
  shows "Map_setitem tr m k v = Some (assign m (m_find m k) v)"
  using assms by (simp add: Map_setitem_def m_subscript_def emplace_present)

lemma setitem_assign_absent:
  assumes "is_copy_assignable_v tr" and "k \<notin> fst ` set m"
  shows "Map_setitem tr m k v =
    Some (let p = min (place tr k (map fst m)) (length m) in insert_at p (k, v) m)"
  using assms
  by (simp add: Map_setitem_def m_subscript_def emplace_absent Let_def assign_inserted)

lemma setitem_emplace_absent:
  assumes "\<not> is_copy_assignable_v tr" and "is_copy_constructible_v tr" and "k \<notin> fst ` set m"
  shows "Map_setitem tr m k v =
    Some (let p = min (place tr k (map fst m)) (length m) in insert_at p (k, v) m)"
  using assms
  by (simp add: Map_setitem_def emplace_absent Let_def)

lemma setitem_emplace_present:
  assumes "\<not> is_copy_assignable_v tr" and "is_copy_constructible_v tr" and "k \<in> fst ` set m"
    and "distinct (map fst m)"
  shows "Map_setitem tr m k v =
    Some (let m' = m_erase m (m_find m k); p = min (place tr k (map fst m')) (length m')
          in insert_at p (k, v) m')"
proof -
  have "k \<notin> fst ` set (m_erase m (m_find m k))"
    using assms(4) by (simp add: erase_find_keys)
  then show ?thesis using assms(1-3)
    by (simp add: Map_setitem_def emplace_present emplace_absent Let_def)
qed

lemma setitem_map_of:
  assumes "distinct (map fst m)" and "Map_setitem tr m k v = Some m'"
  shows "map_of m' = (map_of m)(k \<mapsto> v)"
proof (cases "is_copy_assignable_v tr")
  case True
  show ?thesis
  proof (cases "k \<in> fst ` set m")
    case present: True
    then have "m_find m k < length m"
      using m_find_le [of m k] m_find_end_iff [of m k] by simp
    moreover have "m' = assign m (m_find m k) v"
      using assms(2) setitem_assign_present [OF True present, of v] by simp
    ultimately show ?thesis
      by (simp add: assign_find_map_of)
  next
    case False
    then show ?thesis
      using assms(2) setitem_assign_absent [OF True False, of v]
      by (auto simp: Let_def insert_at_map_of)
  qed
next
  case False
  then have cc: "is_copy_constructible_v tr"
    using assms(2) by (simp add: Map_setitem_def split: if_splits)
  show ?thesis
  proof (cases "k \<in> fst ` set m")
    case True
    have "k \<notin> fst ` set (m_erase m (m_find m k))"
      using assms(1) by (simp add: erase_find_keys)
    then have "map_of m' = (map_of (m_erase m (m_find m k)))(k \<mapsto> v)"
      using assms(2) setitem_emplace_present [OF False cc True assms(1), of v]
      by (auto simp: Let_def insert_at_map_of)
    then show ?thesis using assms(1) by (simp add: erase_find_map_of)
  next
    case absent: False
    then show ?thesis
      using assms(2) setitem_emplace_absent [OF False cc absent, of v]
      by (auto simp: Let_def insert_at_map_of)
  qed
qed

lemma setitem_length:
  assumes "distinct (map fst m)" and "Map_setitem tr m k v = Some m'"
  shows "length m' = (if k \<in> fst ` set m then length m else Suc (length m))"
proof (cases "is_copy_assignable_v tr")
  case True
  show ?thesis
  proof (cases "k \<in> fst ` set m")
    case present: True
    then show ?thesis
      using assms(2) setitem_assign_present [OF True present, of v]
      by (auto simp: assign_length)
  next
    case False
    then show ?thesis
      using assms(2) setitem_assign_absent [OF True False, of v]
      by (auto simp: Let_def insert_at_length)
  qed
next
  case False
  then have cc: "is_copy_constructible_v tr"
    using assms(2) by (simp add: Map_setitem_def split: if_splits)
  show ?thesis
  proof (cases "k \<in> fst ` set m")
    case True
    then have "m_find m k < length m"
      using m_find_le [of m k] m_find_end_iff [of m k] by simp
    then have "length (m_erase m (m_find m k)) = length m - 1" "length m > 0"
      by (simp_all add: erase_find_length) auto
    then show ?thesis
      using True assms(2) setitem_emplace_present [OF False cc True assms(1), of v]
      by (auto simp: Let_def insert_at_length)
  next
    case absent: False
    then show ?thesis
      using assms(2) setitem_emplace_absent [OF False cc absent, of v]
      by (auto simp: Let_def insert_at_length)
  qed
qed

lemma setitem_distinct:
  assumes "distinct (map fst m)" and "Map_setitem tr m k v = Some m'"
  shows "distinct (map fst m')"
proof (cases "is_copy_assignable_v tr")
  case True
  show ?thesis
  proof (cases "k \<in> fst ` set m")
    case present: True
    then show ?thesis
      using assms setitem_assign_present [OF True present, of v]
      by (auto simp: assign_keys)
  next
    case False
    then show ?thesis
      using assms(2) setitem_assign_absent [OF True False, of v]
        insert_at_distinct [OF assms(1) False]
      by (auto simp: Let_def insert_at_length)
  qed
next
  case False
  then have cc: "is_copy_constructible_v tr"
    using assms(2) by (simp add: Map_setitem_def split: if_splits)
  show ?thesis
  proof (cases "k \<in> fst ` set m")
    case True
    have "k \<notin> fst ` set (m_erase m (m_find m k))"
      using assms(1) by (simp add: erase_find_keys)
    moreover have "distinct (map fst (m_erase m (m_find m k)))"
      using assms(1) by (rule erase_find_distinct)
    ultimately have "distinct (map fst (insert_at p (k, v) (m_erase m (m_find m k))))" for p
      by (simp add: insert_at_distinct)
    then show ?thesis
      using assms(2) setitem_emplace_present [OF False cc True assms(1), of v]
      by (auto simp: Let_def insert_at_length)
  next
    case absent: False
    then show ?thesis
      using assms(2) setitem_emplace_absent [OF False cc absent, of v]
        insert_at_distinct [OF assms(1) absent]
      by (auto simp: Let_def insert_at_length)
  qed
qed

section \<open>Reachable states keep the keys unique\<close>

lemma delitem_distinct:
  "distinct (map fst m) \<Longrightarrow> distinct (map fst (snd (Map_delitem m k)))"
  by (simp add: Map_delitem_def Let_def erase_find_distinct)

lemma reachable_wf: "reachable tr m \<Longrightarrow> wf_Map m"
proof (induction rule: reachable.induct)
  case (init tr)
  then show ?case by (simp add: wf_Map_def Map_init_def)
next
  case (setitem tr m k v m')
  then show ?case by (simp add: wf_Map_def setitem_distinct)
next
  case (delitem tr m k r m')
  then show ?case using delitem_distinct [of m k] by (simp add: wf_Map_def)
qed

lemma filter_key_map_of:
  "distinct (map fst m) \<Longrightarrow> map_of m k = Some v \<Longrightarrow> filter (\<lambda>e. fst e = k) m = [(k, v)]"
proof (induction m)
  case Nil
  then show ?case by simp
next
  case (Cons e es)
  obtain a b where e: "e = (a, b)" by (cases e)
  show ?case
  proof (cases "a = k")
    case True
    then have "\<forall>x \<in> set es. fst x \<noteq> k" using Cons.prems(1) e by auto
    then have "filter (\<lambda>e. fst e = k) es = []" by (simp add: filter_empty_conv)
    then show ?thesis using True e Cons.prems(2) by simp
  next
    case False
    then show ?thesis using Cons e by simp
  qed
qed

section \<open>Properties of the store\<close>

lemma lookup_Some_lt: "lookup h a = Some ob \<Longrightarrow> a < length (objects h)"
  by (simp add: lookup_def split: if_splits)

lemma deref_Some_lookup: "deref h a = Some m \<Longrightarrow> lookup h a = Some (Map_object m)"
  by (simp add: deref_def split: option.splits object.splits)

lemma def_keep_alive_Some:
  "f h self = Some ob \<Longrightarrow>
   def_keep_alive_0_1 f h self =
     Some (length (objects h), keep_alive (length (objects h)) self (snd (alloc h ob)))"
  by (simp add: def_keep_alive_0_1_def alloc_def)

lemma lookup_new:
  "lookup (keep_alive r self (snd (alloc h ob))) a =
     (if a = length (objects h) then Some ob else lookup h a)"
  by (simp add: lookup_def keep_alive_def alloc_def nth_append)

lemma deref_new:
  "deref h a = Some m \<Longrightarrow> deref (keep_alive r self (snd (alloc h ob))) a = Some m"
  using lookup_Some_lt [OF deref_Some_lookup, of h a m]
  by (simp add: deref_def lookup_new)

lemma ties_new:
  "ties (keep_alive r self (snd (alloc h ob))) = (r, self) # ties h"
  by (simp add: keep_alive_def alloc_def)

lemma lookup_store:
  "lookup (store h a ob) b = (if b = a \<and> a < length (objects h) then Some ob else lookup h b)"
  by (simp add: lookup_def store_def)

lemma deref_store:
  "deref h a = Some m \<Longrightarrow> deref (store h a (Map_object m')) a = Some m'"
  using lookup_Some_lt [OF deref_Some_lookup, of h a m]
  by (simp add: deref_def lookup_store)

lemma make_iterators_whole:
  "make_key_iterator m (m_begin m) (m_end m) = map fst m"
  "make_value_iterator m (m_begin m) (m_end m) = map snd m"
  "make_iterator m (m_begin m) (m_end m) = m"
  by (simp_all add: make_key_iterator_def make_value_iterator_def make_iterator_def
      m_begin_def m_end_def)

lemma Map_iter_keys: "Map_iter m = map fst m"
  by (simp add: Map_iter_def make_iterators_whole)

lemma lookup_store_other:
  assumes "deref h a = Some m" and "lookup h b = Some ob" and "\<And>x. ob \<noteq> Map_object x"
  shows "lookup (store h a (Map_object m')) b = Some ob"
proof -
  have "b \<noteq> a"
  proof
    assume "b = a"
    then have "ob = Map_object m" using assms(2) deref_Some_lookup [OF assms(1)] by simp
    then show False using assms(3) by simp
  qed
  then show ?thesis using assms(2) by (simp add: lookup_store)
qed

lemma setitem_at_result:
  assumes "deref h a = Some m" and "setitem_at tr h a k v = Some h'"
  shows "\<exists>m'. Map_setitem tr m k v = Some m' \<and> h' = store h a (Map_object m')"
  using assms by (auto simp: setitem_at_def)

lemma delitem_at_result:
  assumes "deref h a = Some m" and "delitem_at h a k = Some (r, h')"
  shows "\<exists>m'. Map_delitem m k = (r, m') \<and> h' = store h a (Map_object m')"
  using assms by (auto simp: delitem_at_def split: prod.splits)

section \<open>What the views and the object-creating operations answer\<close>

lemma KeyView_reads:
  assumes "lookup h kv = Some (KeyView_object (KeyView a))" and "deref h a = Some m"
  shows "KeyView_len h kv = Some (Map_len m)" and "list_KeyView h kv = Some (map fst m)"
proof -
  show "KeyView_len h kv = Some (Map_len m)"
    using assms by (simp add: KeyView_len_def Map_len_def)
  have "KeyView_iter_fn h kv = Some (KeyIterator (map fst m))"
    using assms by (simp add: KeyView_iter_fn_def make_iterators_whole)
  then show "list_KeyView h kv = Some (map fst m)"
    by (simp add: list_KeyView_def KeyView_iter_def def_keep_alive_Some yield_keys_def lookup_new)
qed

lemma ValueView_reads:
  assumes "lookup h vv = Some (ValueView_object (ValueView a))" and "deref h a = Some m"
  shows "ValueView_len h vv = Some (Map_len m)" and "list_ValueView h vv = Some (map snd m)"
proof -
  show "ValueView_len h vv = Some (Map_len m)"
    using assms by (simp add: ValueView_len_def Map_len_def)
  have "ValueView_iter_fn h vv = Some (ValueIterator (map snd m))"
    using assms by (simp add: ValueView_iter_fn_def make_iterators_whole)
  then show "list_ValueView h vv = Some (map snd m)"
    by (simp add: list_ValueView_def ValueView_iter_def def_keep_alive_Some yield_values_def
        lookup_new)
qed

lemma ItemView_reads:
  assumes "lookup h iv = Some (ItemView_object (ItemView a))" and "deref h a = Some m"
  shows "ItemView_len h iv = Some (Map_len m)" and "list_ItemView h iv = Some m"
proof -
  show "ItemView_len h iv = Some (Map_len m)"
    using assms by (simp add: ItemView_len_def Map_len_def)
  have "ItemView_iter_fn h iv = Some (ItemIterator m)"
    using assms by (simp add: ItemView_iter_fn_def make_iterators_whole)
  then show "list_ItemView h iv = Some m"
    by (simp add: list_ItemView_def ItemView_iter_def def_keep_alive_Some yield_items_def
        lookup_new)
qed

lemma Map_keys_result:
  assumes "deref h a = Some m"
  shows "Map_keys h a = Some (length (objects h),
    keep_alive (length (objects h)) a (snd (alloc h (KeyView_object (KeyView a)))))"
  using assms by (simp add: Map_keys_def keys_fn_def def_keep_alive_Some)

lemma Map_values_result:
  assumes "deref h a = Some m"
  shows "Map_values h a = Some (length (objects h),
    keep_alive (length (objects h)) a (snd (alloc h (ValueView_object (ValueView a)))))"
  using assms by (simp add: Map_values_def values_fn_def def_keep_alive_Some)

lemma Map_items_result:
  assumes "deref h a = Some m"
  shows "Map_items h a = Some (length (objects h),
    keep_alive (length (objects h)) a (snd (alloc h (ItemView_object (ItemView a)))))"
  using assms by (simp add: Map_items_def items_fn_def def_keep_alive_Some)

lemma Map_iter_object_result:
  assumes "deref h a = Some m"
  shows "Map_iter_object h a = Some (length (objects h),
    keep_alive (length (objects h)) a (snd (alloc h (KeyIterator (map fst m)))))"
  using assms by (simp add: Map_iter_object_def Map_iter_fn_def def_keep_alive_Some Map_iter_keys)

section \<open>Ties and destruction\<close>

lemma collect_keeps_live: "live h roots a \<Longrightarrow> lookup (collect roots h) a = lookup h a"
  by (simp add: lookup_def collect_def)

lemma deref_collect:
  "live h roots a \<Longrightarrow> deref (collect roots h) a = deref h a"
  by (simp add: deref_def collect_keeps_live)

lemma nurse_protects:
  assumes "deref h a = Some m"
  shows "live (keep_alive r a (snd (alloc h ob))) roots r \<Longrightarrow>
         deref (collect roots (keep_alive r a (snd (alloc h ob)))) a = Some m"
proof -
  let ?h = "keep_alive r a (snd (alloc h ob))"
  assume "live ?h roots r"
  moreover have "(r, a) \<in> set (ties ?h)" by (simp add: ties_new)
  ultimately have "live ?h roots a" by (rule live.tied)
  then show ?thesis using deref_new [OF assms] by (simp add: deref_collect)
qed

lemma lookup_length_None: "lookup h (length (objects h)) = None"
  by (simp add: lookup_def)

lemma nurse_fresh_tied:
  assumes "deref h a = Some m"
  shows "lookup h (length (objects h)) = None \<and>
         lookup (keep_alive (length (objects h)) a (snd (alloc h ob))) (length (objects h))
           = Some ob \<and>
         (length (objects h), a) \<in> set (ties (keep_alive (length (objects h)) a (snd (alloc h ob)))) \<and>
         (\<forall>roots. live (keep_alive (length (objects h)) a (snd (alloc h ob))) roots
                    (length (objects h)) \<longrightarrow>
            deref (collect roots (keep_alive (length (objects h)) a (snd (alloc h ob)))) a
              = Some m)"
  using nurse_protects [OF assms, of "length (objects h)" ob]
  by (simp add: lookup_length_None lookup_new ties_new)

lemma view_nurse_protects:
  assumes "deref h a = Some m" and "(kv, a) \<in> set (ties h)" and "f h kv = Some ob"
    and "lookup h kv = Some vob"
  shows "\<exists>it h'. def_keep_alive_0_1 f h kv = Some (it, h') \<and>
           lookup h it = None \<and> lookup h' it = Some ob \<and>
           (it, kv) \<in> set (ties h') \<and> (kv, a) \<in> set (ties h') \<and>
           (\<forall>roots. live h' roots it \<longrightarrow>
              deref (collect roots h') a = Some m \<and>
              lookup (collect roots h') kv = Some vob)"
proof -
  let ?it = "length (objects h)"
  let ?h = "keep_alive ?it kv (snd (alloc h ob))"
  have r: "def_keep_alive_0_1 f h kv = Some (?it, ?h)"
    using assms(3) by (rule def_keep_alive_Some)
  have t1: "(?it, kv) \<in> set (ties ?h)" by (simp add: ties_new)
  have t2: "(kv, a) \<in> set (ties ?h)" using assms(2) by (simp add: ties_new)
  have kv_lt: "kv < ?it" using assms(4) by (rule lookup_Some_lt)
  then have lv: "lookup ?h kv = Some vob" using assms(4) by (simp add: lookup_new)
  have "deref (collect roots ?h) a = Some m \<and> lookup (collect roots ?h) kv = Some vob"
    if l: "live ?h roots ?it" for roots
  proof -
    from l t1 have k: "live ?h roots kv" by (rule live.tied)
    from k t2 have "live ?h roots a" by (rule live.tied)
    then have "deref (collect roots ?h) a = Some m"
      using deref_new [OF assms(1)] by (simp add: deref_collect)
    moreover have "lookup (collect roots ?h) kv = Some vob"
      using k lv by (simp add: collect_keeps_live)
    ultimately show ?thesis by simp
  qed
  then show ?thesis using r t1 t2 by (simp add: lookup_length_None lookup_new)
qed

lemma Map_contains_eq:
  "Map_contains tr m x =
     Inr (case key_caster tr x of Some k \<Rightarrow> k \<in> fst ` set m | None \<Rightarrow> False)"
  by (simp add: Map_contains_def typed_overload_def handle_overload_def contains_key_def
      contains_handle_def m_end_def m_find_end_iff split: option.splits)

section \<open>Length and emptiness\<close>

text \<open>
  C7: in every state of a map, reachable or not, \<open>__bool__\<close> answers true exactly when
  \<open>__len__\<close> is positive.
\<close>

theorem bool_iff_len_positive: "Map_bool m = (Map_len m > 0)"
  by (simp add: Map_bool_def Map_len_def m_empty_def m_size_def)

section \<open>Membership\<close>

text \<open>
  C1: \<open>__contains__\<close> never raises. For a value of the foreign runtime that the key
  caster accepts, it answers whether an entry with that key is stored; for every other
  value it answers false. \<open>__contains__\<close> of a key view, called on a view object that
  refers to the map, gives the same answer.
\<close>

theorem contains_total:
  "Map_contains tr m x =
     Inr (case key_caster tr x of Some k \<Rightarrow> k \<in> fst ` set m | None \<Rightarrow> False) \<and>
   (lookup h self = Some (KeyView_object (KeyView a)) \<and> deref h a = Some m \<longrightarrow>
      KeyView_contains tr h self x =
        Inr (Some (case key_caster tr x of Some k \<Rightarrow> k \<in> fst ` set m | None \<Rightarrow> False)))"
  by (simp add: Map_contains_def KeyView_contains_def typed_overload_def handle_overload_def
      contains_key_def contains_handle_def KeyView_contains_key_def
      KeyView_contains_handle_def m_end_def m_find_end_iff split: option.splits)

theorem contains_total_witness:
  "lookup \<lparr>objects = [Some (Map_object example_map), Some (KeyView_object (KeyView 0))],
           ties = [(1, 0)]\<rparr> 1 = Some (KeyView_object (KeyView 0)) \<and>
   deref \<lparr>objects = [Some (Map_object example_map), Some (KeyView_object (KeyView 0))],
          ties = [(1, 0)]\<rparr> 0 = Some example_map \<and>
   Map_contains (int_map False) example_map (py_int 3) = Inr True \<and>
   Map_contains (int_map False) example_map (py_str ''3'') = Inr False \<and>
   KeyView_contains (int_map False)
     \<lparr>objects = [Some (Map_object example_map), Some (KeyView_object (KeyView 0))],
      ties = [(1, 0)]\<rparr> 1 (py_int 3) = Inr (Some True) \<and>
   KeyView_contains (int_map False)
     \<lparr>objects = [Some (Map_object example_map), Some (KeyView_object (KeyView 0))],
      ties = [(1, 0)]\<rparr> 1 (py_str ''3'') = Inr (Some False)"
proof -
  let ?h = "\<lparr>objects = [Some (Map_object example_map), Some (KeyView_object (KeyView 0))],
             ties = [(1, 0)]\<rparr>"
  have l: "lookup ?h 1 = Some (KeyView_object (KeyView 0))" by (simp add: lookup_def)
  have d: "deref ?h 0 = Some example_map" by (simp add: deref_def lookup_def)
  show ?thesis
    using l d contains_total [of "int_map False" example_map "py_int 3" ?h 1 0]
      contains_total [of "int_map False" example_map "py_str ''3''" ?h 1 0]
    by (simp add: int_map_def int_caster_def example_map_def)
qed

section \<open>Writing an entry\<close>

text \<open>
  C2: when \<open>__setitem__\<close> is bound and is called with key \<open>k\<close> and value \<open>v\<close> on a map
  with unique keys, then afterwards \<open>__getitem__\<close> of \<open>k\<close> returns \<open>v\<close>,
  \<open>__contains__\<close> of \<open>k\<close> is true, and \<open>__len__\<close> is one more than before if \<open>k\<close> was
  not stored and the same as before if it was. The traits are arbitrary, so this holds
  for the branch that assigns in place and for the branch that erases and emplaces.
\<close>

theorem setitem_then_get:
  assumes "wf_Map m" and "Map_setitem tr m k v = Some m'"
  shows "fst (Map_getitem m' k) = Inr v \<and> contains_key m' k \<and>
         (\<forall>x. key_caster tr x = Some k \<longrightarrow> Map_contains tr m' x = Inr True) \<and>
         Map_len m' = (if k \<in> fst ` set m then Map_len m else Map_len m + 1)"
proof -
  have d: "distinct (map fst m)" using assms(1) by (simp add: wf_Map_def)
  have "map_of m' = (map_of m)(k \<mapsto> v)" using d assms(2) by (rule setitem_map_of)
  then have g: "fst (Map_getitem m' k) = Inr v" and c: "contains_key m' k"
    by (simp_all add: getitem_map_of contains_key_map_of)
  have "k \<in> fst ` set m'"
    using c by (simp add: contains_key_def m_end_def m_find_end_iff)
  then have x: "\<forall>x. key_caster tr x = Some k \<longrightarrow> Map_contains tr m' x = Inr True"
    by (simp add: Map_contains_eq)
  have "Map_len m' = (if k \<in> fst ` set m then Map_len m else Map_len m + 1)"
    using setitem_length [OF d assms(2)] by (simp add: Map_len_def m_size_def)
  then show ?thesis using g c x by simp
qed

theorem setitem_then_get_witness:
  "wf_Map example_map \<and>
   Map_setitem (int_map False) example_map 3 ''b'' = Some [(1, ''a''), (3, ''b'')] \<and>
   Map_setitem (int_map True) example_map 2 ''b'' = Some [(1, ''a''), (2, ''b''), (3, ''c'')] \<and>
   fst (Map_getitem [(1::int, ''a''), (3, ''b'')] 3) = Inr ''b'' \<and>
   key_caster (int_map False) (py_int 3) = Some 3 \<and>
   Map_contains (int_map False) [(1, ''a''), (3, ''b'')] (py_int 3) = Inr True \<and>
   Map_len [(1::int, ''a''), (3, ''b'')] = Map_len example_map \<and>
   fst (Map_getitem [(1::int, ''a''), (2, ''b''), (3, ''c'')] 2) = Inr ''b'' \<and>
   Map_len [(1::int, ''a''), (2, ''b''), (3, ''c'')] = Map_len example_map + 1"
proof -
  have w: "wf_Map example_map" by (simp add: wf_Map_def example_map_def)
  have s1: "Map_setitem (int_map False) example_map 3 ''b'' = Some [(1, ''a''), (3, ''b'')]"
    by (simp add: Map_setitem_def m_emplace_def m_erase_def m_end_def insert_at_def
        int_map_def std_map_place_def example_map_def)
  have s2: "Map_setitem (int_map True) example_map 2 ''b''
      = Some [(1, ''a''), (2, ''b''), (3, ''c'')]"
    by (simp add: Map_setitem_def m_subscript_def m_emplace_def assign_def m_end_def
        insert_at_def int_map_def std_map_place_def example_map_def)
  have c: "key_caster (int_map False) (py_int 3) = Some 3"
    by (simp add: int_map_def int_caster_def)
  have e: "(3::int) \<in> fst ` set example_map" "(2::int) \<notin> fst ` set example_map"
    by (simp_all add: example_map_def)
  show ?thesis
    using w s1 s2 c e setitem_then_get [OF w s1] setitem_then_get [OF w s2]
    by simp
qed

text \<open>
  C4: for a value type that is copy-constructible and not copy-assignable, two calls of
  \<open>__setitem__\<close> with the same key leave exactly one entry with that key, holding the
  second value, and \<open>__len__\<close> is the same after the second call as after the first. In
  the second call the first \<open>emplace\<close> inserts nothing and returns the position of the
  stored entry, the entry at that position is erased, so that the key is no longer
  stored, and the second \<open>emplace\<close> inserts the new entry.
\<close>

theorem reconstruct_twice:
  assumes "\<not> is_copy_assignable_v tr" and "is_copy_constructible_v tr" and "wf_Map m"
    and "Map_setitem tr m k v1 = Some m1" and "Map_setitem tr m1 k v2 = Some m2"
  shows "filter (\<lambda>e. fst e = k) m2 = [(k, v2)] \<and> Map_len m2 = Map_len m1 \<and>
         m_emplace tr m1 k v2 = (m1, m_find m1 k, False) \<and>
         k \<notin> fst ` set (m_erase m1 (m_find m1 k)) \<and>
         m_emplace tr (m_erase m1 (m_find m1 k)) k v2 =
           (m2, min (place tr k (map fst (m_erase m1 (m_find m1 k)))) (length m1 - 1), True)"
proof -
  have d: "distinct (map fst m)" using assms(3) by (simp add: wf_Map_def)
  have d1: "distinct (map fst m1)" using d assms(4) by (rule setitem_distinct)
  have d2: "distinct (map fst m2)" using d1 assms(5) by (rule setitem_distinct)
  have "map_of m1 = (map_of m)(k \<mapsto> v1)" using d assms(4) by (rule setitem_map_of)
  then have "contains_key m1 k" by (simp add: contains_key_map_of)
  then have in1: "k \<in> fst ` set m1"
    by (simp add: contains_key_def m_end_def m_find_end_iff)
  have "map_of m2 = (map_of m1)(k \<mapsto> v2)" using d1 assms(5) by (rule setitem_map_of)
  then have "map_of m2 k = Some v2" by simp
  then have one: "filter (\<lambda>e. fst e = k) m2 = [(k, v2)]"
    using d2 by (simp add: filter_key_map_of)
  have len: "Map_len m2 = Map_len m1"
    using setitem_length [OF d1 assms(5)] in1 by (simp add: Map_len_def m_size_def)
  have first: "m_emplace tr m1 k v2 = (m1, m_find m1 k, False)"
    using in1 by (rule emplace_present)
  have gone: "k \<notin> fst ` set (m_erase m1 (m_find m1 k))"
    using d1 by (simp add: erase_find_keys)
  have lt: "m_find m1 k < length m1"
    using in1 m_find_le [of m1 k] m_find_end_iff [of m1 k] by simp
  have m2: "m2 = insert_at (min (place tr k (map fst (m_erase m1 (m_find m1 k))))
      (length (m_erase m1 (m_find m1 k)))) (k, v2) (m_erase m1 (m_find m1 k))"
    using assms(5) setitem_emplace_present [OF assms(1,2) in1 d1, of v2] by (simp add: Let_def)
  have second: "m_emplace tr (m_erase m1 (m_find m1 k)) k v2 =
      (m2, min (place tr k (map fst (m_erase m1 (m_find m1 k)))) (length m1 - 1), True)"
    using gone m2 lt by (simp add: emplace_absent Let_def erase_find_length)
  show ?thesis using one len first gone second by simp
qed

theorem reconstruct_twice_witness:
  "\<not> is_copy_assignable_v (int_map False) \<and> is_copy_constructible_v (int_map False) \<and>
   wf_Map [(1::int, ''a'')] \<and>
   Map_setitem (int_map False) [(1, ''a'')] 3 ''c'' = Some example_map \<and>
   Map_setitem (int_map False) example_map 3 ''b'' = Some [(1, ''a''), (3, ''b'')] \<and>
   filter (\<lambda>e. fst e = 3) [(1::int, ''a''), (3, ''b'')] = [(3, ''b'')] \<and>
   Map_len [(1::int, ''a''), (3, ''b'')] = Map_len example_map \<and>
   m_emplace (int_map False) example_map 3 ''b'' = (example_map, 1, False) \<and>
   m_erase example_map 1 = [(1, ''a'')] \<and>
   m_emplace (int_map False) [(1, ''a'')] 3 ''b'' = ([(1, ''a''), (3, ''b'')], 1, True)"
proof -
  have a: "\<not> is_copy_assignable_v (int_map False)" "is_copy_constructible_v (int_map False)"
    by (simp_all add: int_map_def)
  have w: "wf_Map [(1::int, ''a'')]" by (simp add: wf_Map_def)
  have s1: "Map_setitem (int_map False) [(1, ''a'')] 3 ''c'' = Some example_map"
    by (simp add: Map_setitem_def m_emplace_def m_erase_def m_end_def insert_at_def
        int_map_def std_map_place_def example_map_def)
  have s2: "Map_setitem (int_map False) example_map 3 ''b'' = Some [(1, ''a''), (3, ''b'')]"
    by (simp add: Map_setitem_def m_emplace_def m_erase_def m_end_def insert_at_def
        int_map_def std_map_place_def example_map_def)
  have f: "m_find example_map 3 = 1" "m_erase example_map 1 = [(1, ''a'')]"
    "place (int_map False) 3 [1] = 1" "length example_map = 2"
    by (simp_all add: example_map_def m_erase_def int_map_def std_map_place_def)
  show ?thesis
    using a w s1 s2 f reconstruct_twice [OF a w s1 s2]
    by simp
qed

section \<open>Missing keys\<close>

text \<open>
  C3: for a key that is not stored, \<open>__getitem__\<close> throws \<open>key_error\<close> and
  \<open>__delitem__\<close> throws \<open>key_error\<close>; the exception is what the operation returns to
  its caller, and the container it leaves is the container it was given.
\<close>

theorem absent_key_raises:
  assumes "k \<notin> fst ` set m"
  shows "Map_getitem m k = (Inl key_error, m) \<and> Map_delitem m k = (Inl key_error, m)"
  using assms by (simp add: Map_getitem_def Map_delitem_def m_end_def m_find_end_iff)

theorem absent_key_raises_witness:
  "(2::int) \<notin> fst ` set example_map \<and>
   Map_getitem example_map 2 = (Inl key_error, example_map) \<and>
   Map_delitem example_map 2 = (Inl key_error, example_map)"
proof -
  have a: "(2::int) \<notin> fst ` set example_map" by (simp add: example_map_def)
  show ?thesis using a absent_key_raises [OF a] by simp
qed

section \<open>Deleting an entry\<close>

text \<open>
  C5: for a key that is stored in a map with unique keys, \<open>__delitem__\<close> returns
  normally, \<open>__contains__\<close> of the key is false afterwards, and \<open>__len__\<close> is exactly
  one less than before.
\<close>

theorem delitem_present:
  assumes "wf_Map m" and "k \<in> fst ` set m"
  shows "fst (Map_delitem m k) = Inr () \<and>
         \<not> contains_key (snd (Map_delitem m k)) k \<and>
         Map_len (snd (Map_delitem m k)) + 1 = Map_len m"
proof -
  have d: "distinct (map fst m)" using assms(1) by (simp add: wf_Map_def)
  have lt: "m_find m k < length m"
    using assms(2) m_find_le [of m k] m_find_end_iff [of m k] by simp
  then have r: "Map_delitem m k = (Inr (), m_erase m (m_find m k))"
    by (simp add: Map_delitem_def m_end_def)
  have "k \<notin> fst ` set (m_erase m (m_find m k))"
    using d by (simp add: erase_find_keys)
  then have "\<not> contains_key (m_erase m (m_find m k)) k"
    by (simp add: contains_key_def m_end_def m_find_end_iff)
  moreover have "length (m_erase m (m_find m k)) + 1 = length m"
    using lt by (simp add: erase_find_length)
  ultimately show ?thesis using r by (simp add: Map_len_def m_size_def)
qed

theorem delitem_present_witness:
  "wf_Map example_map \<and> (1::int) \<in> fst ` set example_map \<and>
   Map_delitem example_map 1 = (Inr (), [(3, ''c'')]) \<and>
   \<not> contains_key [(3::int, ''c'')] 1 \<and>
   Map_len [(3::int, ''c'')] + 1 = Map_len example_map"
proof -
  have w: "wf_Map example_map" by (simp add: wf_Map_def example_map_def)
  have p: "(1::int) \<in> fst ` set example_map" by (simp add: example_map_def)
  have r: "Map_delitem example_map 1 = (Inr (), [(3, ''c'')])"
    by (simp add: Map_delitem_def m_end_def m_erase_def example_map_def)
  show ?thesis using w p r delitem_present [OF w p] by simp
qed

section \<open>Other keys\<close>

text \<open>
  C9: \<open>__setitem__\<close> and \<open>__delitem__\<close> called with key \<open>k\<close> on a map with unique
  keys leave every other key as it was: for \<open>k'\<close> different from \<open>k\<close>, \<open>__getitem__\<close>
  returns the same value or throws the same \<open>key_error\<close> before and after, and
  \<open>__contains__\<close> answers the same. The traits are arbitrary, so this covers the branch
  that erases and emplaces.
\<close>

theorem other_keys_untouched:
  assumes "wf_Map m" and "k' \<noteq> k"
  shows "(Map_setitem tr m k v = Some m' \<longrightarrow>
            fst (Map_getitem m' k') = fst (Map_getitem m k') \<and>
            contains_key m' k' = contains_key m k') \<and>
         fst (Map_getitem (snd (Map_delitem m k)) k') = fst (Map_getitem m k') \<and>
         contains_key (snd (Map_delitem m k)) k' = contains_key m k'"
proof -
  have d: "distinct (map fst m)" using assms(1) by (simp add: wf_Map_def)
  have "map_of m' k' = map_of m k'" if "Map_setitem tr m k v = Some m'"
    using setitem_map_of [OF d that] assms(2) by simp
  moreover have "map_of (snd (Map_delitem m k)) k' = map_of m k'"
    using assms(2) by (simp add: Map_delitem_def Let_def erase_find_map_of_other)
  ultimately show ?thesis by (simp add: getitem_map_of contains_key_map_of)
qed

theorem other_keys_untouched_witness:
  "wf_Map example_map \<and> (1::int) \<noteq> 3 \<and>
   Map_setitem (int_map False) example_map 3 ''b'' = Some [(1, ''a''), (3, ''b'')] \<and>
   fst (Map_getitem [(1::int, ''a''), (3, ''b'')] 1) = fst (Map_getitem example_map 1) \<and>
   fst (Map_getitem example_map 1) = Inr ''a'' \<and>
   snd (Map_delitem example_map 3) = [(1, ''a'')] \<and>
   fst (Map_getitem (snd (Map_delitem example_map 3)) 1) = Inr ''a''"
proof -
  have w: "wf_Map example_map" by (simp add: wf_Map_def example_map_def)
  have n: "(1::int) \<noteq> 3" by simp
  have s: "Map_setitem (int_map False) example_map 3 ''b'' = Some [(1, ''a''), (3, ''b'')]"
    by (simp add: Map_setitem_def m_emplace_def m_erase_def m_end_def insert_at_def
        int_map_def std_map_place_def example_map_def)
  have g: "fst (Map_getitem example_map 1) = Inr ''a''"
    "snd (Map_delitem example_map 3) = [(1, ''a'')]"
    by (simp_all add: Map_getitem_def Map_delitem_def m_end_def m_erase_def example_map_def)
  show ?thesis
    using w n s g
      other_keys_untouched [OF w n, of "int_map False" "''b''" "[(1, ''a''), (3, ''b'')]"]
    by simp
qed

section \<open>Iteration\<close>

text \<open>
  C6: for a map object whose container has unique keys, iterating the key view that
  \<open>keys()\<close> returns and iterating the map itself yield the same sequence: the keys of
  the entries in the container's iteration order, as many as \<open>__len__\<close> counts and
  pairwise distinct. The keys of the sequence that iterating \<open>items()\<close> yields are that
  same sequence, element for element.
\<close>

theorem keys_in_native_order:
  assumes "deref h a = Some m" and "wf_Map m"
  shows "\<exists>ks. list_keys h a = Some ks \<and> list_Map h a = Some ks \<and>
           map_option (map fst) (list_items h a) = Some ks \<and>
           length ks = Map_len m \<and> distinct ks \<and> ks = map fst m \<and> ks = Map_iter m"
proof -
  let ?n = "length (objects h)"
  let ?hk = "keep_alive ?n a (snd (alloc h (KeyView_object (KeyView a))))"
  let ?hi = "keep_alive ?n a (snd (alloc h (ItemView_object (ItemView a))))"
  have "list_KeyView ?hk ?n = Some (map fst m)"
    by (rule KeyView_reads(2) [where a = a]) (simp_all add: lookup_new deref_new assms(1))
  then have k: "list_keys h a = Some (map fst m)"
    by (simp add: list_keys_def Map_keys_result [OF assms(1)])
  have "list_ItemView ?hi ?n = Some m"
    by (rule ItemView_reads(2) [where a = a]) (simp_all add: lookup_new deref_new assms(1))
  then have i: "list_items h a = Some m"
    by (simp add: list_items_def Map_items_result [OF assms(1)])
  have s: "list_Map h a = Some (map fst m)"
    by (simp add: list_Map_def Map_iter_object_result [OF assms(1)] yield_keys_def lookup_new)
  show ?thesis
    using k i s assms(2) by (simp add: Map_iter_keys Map_len_def m_size_def wf_Map_def)
qed

theorem keys_in_native_order_witness:
  "deref example_heap 0 = Some example_map \<and> wf_Map example_map \<and>
   list_keys example_heap 0 = Some [1, 3] \<and> list_Map example_heap 0 = Some [1, 3] \<and>
   map_option (map fst) (list_items example_heap 0) = Some [1, 3] \<and>
   Map_len example_map = 2"
proof -
  have d: "deref example_heap 0 = Some example_map"
    by (simp add: deref_def lookup_def example_heap_def)
  have w: "wf_Map example_map" by (simp add: wf_Map_def example_map_def)
  have k: "map fst example_map = [1, 3]" by (simp add: example_map_def)
  show ?thesis using d w k keys_in_native_order [OF d w] by auto
qed

section \<open>Views read the map at the time of the call\<close>

text \<open>
  C8: the three views are created from a map object, and then the map is changed by
  \<open>__setitem__\<close> or by a \<open>__delitem__\<close> that returns normally. Before the change
  \<open>__len__\<close> and iteration of each view answer for the container as it was; after the
  change the same view objects answer for the container that the change left: the
  length, the keys, the values and the entries are those of the map at the time of the
  call, not those of the time when the view was created.
\<close>

theorem views_are_live:
  assumes "deref h a = Some m"
    and "Map_keys h a = Some (kv, h1)"
    and "Map_values h1 a = Some (vv, h2)"
    and "Map_items h2 a = Some (iv, h3)"
    and "setitem_at tr h3 a k v = Some h4 \<or> delitem_at h3 a k = Some (Inr (), h4)"
  shows "\<exists>m'. deref h4 a = Some m' \<and>
           (Map_setitem tr m k v = Some m' \<or> Map_delitem m k = (Inr (), m')) \<and>
           KeyView_len h3 kv = Some (Map_len m) \<and> KeyView_len h4 kv = Some (Map_len m') \<and>
           ValueView_len h3 vv = Some (Map_len m) \<and> ValueView_len h4 vv = Some (Map_len m') \<and>
           ItemView_len h3 iv = Some (Map_len m) \<and> ItemView_len h4 iv = Some (Map_len m') \<and>
           list_KeyView h3 kv = Some (map fst m) \<and> list_KeyView h4 kv = Some (map fst m') \<and>
           list_ValueView h3 vv = Some (map snd m) \<and> list_ValueView h4 vv = Some (map snd m') \<and>
           list_ItemView h3 iv = Some m \<and> list_ItemView h4 iv = Some m'"
proof -
  have kv: "kv = length (objects h)"
    and h1: "h1 = keep_alive kv a (snd (alloc h (KeyView_object (KeyView a))))"
    using assms(2) Map_keys_result [OF assms(1)] by auto
  have d1: "deref h1 a = Some m" unfolding h1 using assms(1) by (rule deref_new)
  have vv: "vv = length (objects h1)"
    and h2: "h2 = keep_alive vv a (snd (alloc h1 (ValueView_object (ValueView a))))"
    using assms(3) Map_values_result [OF d1] by auto
  have d2: "deref h2 a = Some m" unfolding h2 using d1 by (rule deref_new)
  have iv: "iv = length (objects h2)"
    and h3: "h3 = keep_alive iv a (snd (alloc h2 (ItemView_object (ItemView a))))"
    using assms(4) Map_items_result [OF d2] by auto
  have d3: "deref h3 a = Some m" unfolding h3 using d2 by (rule deref_new)
  have l1: "lookup h1 kv = Some (KeyView_object (KeyView a))"
    by (simp add: h1 kv lookup_new)
  have l2: "lookup h2 vv = Some (ValueView_object (ValueView a))"
    by (simp add: h2 vv lookup_new)
  have kv_lt: "kv < length (objects h1)" using l1 by (rule lookup_Some_lt)
  have vv_lt: "vv < length (objects h2)" using l2 by (rule lookup_Some_lt)
  have l2k: "lookup h2 kv = Some (KeyView_object (KeyView a))"
    using kv_lt l1 by (simp add: h2 vv lookup_new)
  have kv_lt2: "kv < length (objects h2)" using l2k by (rule lookup_Some_lt)
  have k3: "lookup h3 kv = Some (KeyView_object (KeyView a))"
    using kv_lt2 l2k by (simp add: h3 iv lookup_new)
  have v3: "lookup h3 vv = Some (ValueView_object (ValueView a))"
    using vv_lt l2 by (simp add: h3 iv lookup_new)
  have i3: "lookup h3 iv = Some (ItemView_object (ItemView a))"
    by (simp add: h3 iv lookup_new)
  obtain m' where m': "Map_setitem tr m k v = Some m' \<or> Map_delitem m k = (Inr (), m')"
    and h4: "h4 = store h3 a (Map_object m')"
    using assms(5) setitem_at_result [OF d3] delitem_at_result [OF d3] by blast
  have d4: "deref h4 a = Some m'" unfolding h4 using d3 by (rule deref_store)
  have k4: "lookup h4 kv = Some (KeyView_object (KeyView a))"
    unfolding h4 using d3 k3 by (rule lookup_store_other) simp
  have v4: "lookup h4 vv = Some (ValueView_object (ValueView a))"
    unfolding h4 using d3 v3 by (rule lookup_store_other) simp
  have i4: "lookup h4 iv = Some (ItemView_object (ItemView a))"
    unfolding h4 using d3 i3 by (rule lookup_store_other) simp
  show ?thesis
    using d4 m' KeyView_reads [OF k3 d3] KeyView_reads [OF k4 d4]
      ValueView_reads [OF v3 d3] ValueView_reads [OF v4 d4]
      ItemView_reads [OF i3 d3] ItemView_reads [OF i4 d4]
    by blast
qed

theorem views_are_live_witness:
  "deref example_heap 0 = Some example_map \<and>
   Map_keys example_heap 0 =
     Some (1, \<lparr>objects = [Some (Map_object example_map), Some (KeyView_object (KeyView 0))],
               ties = [(1, 0)]\<rparr>) \<and>
   Map_values
     \<lparr>objects = [Some (Map_object example_map), Some (KeyView_object (KeyView 0))],
      ties = [(1, 0)]\<rparr> 0 =
     Some (2, \<lparr>objects = [Some (Map_object example_map), Some (KeyView_object (KeyView 0)),
                           Some (ValueView_object (ValueView 0))],
               ties = [(2, 0), (1, 0)]\<rparr>) \<and>
   Map_items
     \<lparr>objects = [Some (Map_object example_map), Some (KeyView_object (KeyView 0)),
                 Some (ValueView_object (ValueView 0))],
      ties = [(2, 0), (1, 0)]\<rparr> 0 =
     Some (3, \<lparr>objects = [Some (Map_object example_map), Some (KeyView_object (KeyView 0)),
                           Some (ValueView_object (ValueView 0)),
                           Some (ItemView_object (ItemView 0))],
               ties = [(3, 0), (2, 0), (1, 0)]\<rparr>) \<and>
   setitem_at (int_map False)
     \<lparr>objects = [Some (Map_object example_map), Some (KeyView_object (KeyView 0)),
                 Some (ValueView_object (ValueView 0)), Some (ItemView_object (ItemView 0))],
      ties = [(3, 0), (2, 0), (1, 0)]\<rparr> 0 2 ''b'' =
     Some \<lparr>objects = [Some (Map_object [(1::int, ''a''), (2, ''b''), (3, ''c'')]),
                      Some (KeyView_object (KeyView 0)),
                      Some (ValueView_object (ValueView 0)),
                      Some (ItemView_object (ItemView 0))],
           ties = [(3, 0), (2, 0), (1, 0)]\<rparr> \<and>
   KeyView_len
     \<lparr>objects = [Some (Map_object example_map), Some (KeyView_object (KeyView 0)),
                 Some (ValueView_object (ValueView 0)), Some (ItemView_object (ItemView 0))],
      ties = [(3, 0), (2, 0), (1, 0)]\<rparr> 1 = Some 2 \<and>
   KeyView_len
     \<lparr>objects = [Some (Map_object [(1::int, ''a''), (2, ''b''), (3, ''c'')]),
                 Some (KeyView_object (KeyView 0)),
                 Some (ValueView_object (ValueView 0)),
                 Some (ItemView_object (ItemView 0))],
      ties = [(3, 0), (2, 0), (1, 0)]\<rparr> 1 = Some 3 \<and>
   list_ValueView
     \<lparr>objects = [Some (Map_object [(1::int, ''a''), (2, ''b''), (3, ''c'')]),
                 Some (KeyView_object (KeyView 0)),
                 Some (ValueView_object (ValueView 0)),
                 Some (ItemView_object (ItemView 0))],
      ties = [(3, 0), (2, 0), (1, 0)]\<rparr> 2 = Some [''a'', ''b'', ''c''] \<and>
   list_ItemView
     \<lparr>objects = [Some (Map_object [(1::int, ''a''), (2, ''b''), (3, ''c'')]),
                 Some (KeyView_object (KeyView 0)),
                 Some (ValueView_object (ValueView 0)),
                 Some (ItemView_object (ItemView 0))],
      ties = [(3, 0), (2, 0), (1, 0)]\<rparr> 3 = Some [(1, ''a''), (2, ''b''), (3, ''c'')]"
proof -
  let ?h1 = "\<lparr>objects = [Some (Map_object example_map), Some (KeyView_object (KeyView 0))],
              ties = [(1, 0)]\<rparr>"
  let ?h2 = "\<lparr>objects = [Some (Map_object example_map), Some (KeyView_object (KeyView 0)),
                          Some (ValueView_object (ValueView 0))],
              ties = [(2, 0), (1, 0)]\<rparr>"
  let ?h3 = "\<lparr>objects = [Some (Map_object example_map), Some (KeyView_object (KeyView 0)),
                          Some (ValueView_object (ValueView 0)),
                          Some (ItemView_object (ItemView 0))],
              ties = [(3, 0), (2, 0), (1, 0)]\<rparr>"
  let ?h4 = "\<lparr>objects = [Some (Map_object [(1::int, ''a''), (2, ''b''), (3, ''c'')]),
                          Some (KeyView_object (KeyView 0)),
                          Some (ValueView_object (ValueView 0)),
                          Some (ItemView_object (ItemView 0))],
              ties = [(3, 0), (2, 0), (1, 0)]\<rparr>"
  have d: "deref example_heap 0 = Some example_map"
    by (simp add: deref_def lookup_def example_heap_def)
  have k: "Map_keys example_heap 0 = Some (1, ?h1)"
    by (simp add: Map_keys_def keys_fn_def def_keep_alive_0_1_def alloc_def keep_alive_def
        deref_def lookup_def example_heap_def)
  have v: "Map_values ?h1 0 = Some (2, ?h2)"
    by (simp add: Map_values_def values_fn_def def_keep_alive_0_1_def alloc_def keep_alive_def
        deref_def lookup_def)
  have i: "Map_items ?h2 0 = Some (3, ?h3)"
    by (simp add: Map_items_def items_fn_def def_keep_alive_0_1_def alloc_def keep_alive_def
        deref_def lookup_def)
  have s: "Map_setitem (int_map False) example_map 2 ''b''
      = Some [(1, ''a''), (2, ''b''), (3, ''c'')]"
    by (simp add: Map_setitem_def m_emplace_def m_end_def insert_at_def
        int_map_def std_map_place_def example_map_def)
  have t: "setitem_at (int_map False) ?h3 0 2 ''b'' = Some ?h4"
    by (simp add: setitem_at_def deref_def lookup_def store_def s)
  have t': "setitem_at (int_map False) ?h3 0 2 ''b'' = Some ?h4 \<or>
      delitem_at ?h3 0 2 = Some (Inr (), ?h4)"
    using t by simp
  have e: "deref ?h4 0 = Some [(1, ''a''), (2, ''b''), (3, ''c'')]"
    by (simp add: deref_def lookup_def)
  have n: "Map_len example_map = 2" "Map_len [(1::int, ''a''), (2, ''b''), (3, ''c'')] = 3"
    by (simp_all add: Map_len_def m_size_def example_map_def)
  obtain m' where m': "deref ?h4 0 = Some m'"
    and r: "KeyView_len ?h3 1 = Some (Map_len example_map)"
      "KeyView_len ?h4 1 = Some (Map_len m')"
      "list_ValueView ?h4 2 = Some (map snd m')"
      "list_ItemView ?h4 3 = Some m'"
    using views_are_live [OF d k v i t'] by blast
  have "m' = [(1, ''a''), (2, ''b''), (3, ''c'')]" using m' e by simp
  then show ?thesis using d k v i t n r by simp
qed

section \<open>Lifetime\<close>

text \<open>
  C10: each of \<open>keys()\<close>, \<open>values()\<close>, \<open>items()\<close> and \<open>__iter__\<close>, called on a
  map object, returns a new object: its address held no object before the call, and
  after the call it holds the view that refers to the map, or the iterator over the
  keys of the map. The call ties the new object to the map, as nurse to patient, and
  whenever the runtime destroys the objects that are not live, the map is still there as
  long as the returned object is live. \<open>__iter__\<close> of a view likewise returns a new
  iterator object, over the keys, the values or the entries of the map, and ties it to
  the view, which is tied to the map: while the iterator is live neither the view nor the
  map is destroyed.
\<close>

theorem derived_objects_keep_map_alive:
  assumes "deref h a = Some m"
  shows "(\<exists>kv h'. Map_keys h a = Some (kv, h') \<and>
            lookup h kv = None \<and> lookup h' kv = Some (KeyView_object (KeyView a)) \<and>
            (kv, a) \<in> set (ties h') \<and>
            (\<forall>roots. live h' roots kv \<longrightarrow> deref (collect roots h') a = Some m) \<and>
            (\<exists>it h''. KeyView_iter h' kv = Some (it, h'') \<and>
               lookup h' it = None \<and> lookup h'' it = Some (KeyIterator (map fst m)) \<and>
               (it, kv) \<in> set (ties h'') \<and> (kv, a) \<in> set (ties h'') \<and>
               (\<forall>roots. live h'' roots it \<longrightarrow>
                  deref (collect roots h'') a = Some m \<and>
                  lookup (collect roots h'') kv = Some (KeyView_object (KeyView a))))) \<and>
         (\<exists>vv h'. Map_values h a = Some (vv, h') \<and>
            lookup h vv = None \<and> lookup h' vv = Some (ValueView_object (ValueView a)) \<and>
            (vv, a) \<in> set (ties h') \<and>
            (\<forall>roots. live h' roots vv \<longrightarrow> deref (collect roots h') a = Some m) \<and>
            (\<exists>it h''. ValueView_iter h' vv = Some (it, h'') \<and>
               lookup h' it = None \<and> lookup h'' it = Some (ValueIterator (map snd m)) \<and>
               (it, vv) \<in> set (ties h'') \<and> (vv, a) \<in> set (ties h'') \<and>
               (\<forall>roots. live h'' roots it \<longrightarrow>
                  deref (collect roots h'') a = Some m \<and>
                  lookup (collect roots h'') vv = Some (ValueView_object (ValueView a))))) \<and>
         (\<exists>iv h'. Map_items h a = Some (iv, h') \<and>
            lookup h iv = None \<and> lookup h' iv = Some (ItemView_object (ItemView a)) \<and>
            (iv, a) \<in> set (ties h') \<and>
            (\<forall>roots. live h' roots iv \<longrightarrow> deref (collect roots h') a = Some m) \<and>
            (\<exists>it h''. ItemView_iter h' iv = Some (it, h'') \<and>
               lookup h' it = None \<and> lookup h'' it = Some (ItemIterator m) \<and>
               (it, iv) \<in> set (ties h'') \<and> (iv, a) \<in> set (ties h'') \<and>
               (\<forall>roots. live h'' roots it \<longrightarrow>
                  deref (collect roots h'') a = Some m \<and>
                  lookup (collect roots h'') iv = Some (ItemView_object (ItemView a))))) \<and>
         (\<exists>it h'. Map_iter_object h a = Some (it, h') \<and>
            lookup h it = None \<and> lookup h' it = Some (KeyIterator (map fst m)) \<and>
            (it, a) \<in> set (ties h') \<and>
            (\<forall>roots. live h' roots it \<longrightarrow> deref (collect roots h') a = Some m))"
proof -
  let ?n = "length (objects h)"
  let ?hk = "keep_alive ?n a (snd (alloc h (KeyView_object (KeyView a))))"
  let ?hv = "keep_alive ?n a (snd (alloc h (ValueView_object (ValueView a))))"
  let ?hi = "keep_alive ?n a (snd (alloc h (ItemView_object (ItemView a))))"
  have ki: "\<exists>it h''. KeyView_iter ?hk ?n = Some (it, h'') \<and>
      lookup ?hk it = None \<and> lookup h'' it = Some (KeyIterator (map fst m)) \<and>
      (it, ?n) \<in> set (ties h'') \<and> (?n, a) \<in> set (ties h'') \<and>
      (\<forall>roots. live h'' roots it \<longrightarrow>
         deref (collect roots h'') a = Some m \<and>
         lookup (collect roots h'') ?n = Some (KeyView_object (KeyView a)))"
    unfolding KeyView_iter_def
    by (rule view_nurse_protects)
      (simp_all add: deref_new [OF assms] ties_new KeyView_iter_fn_def lookup_new
        make_iterators_whole)
  have vi: "\<exists>it h''. ValueView_iter ?hv ?n = Some (it, h'') \<and>
      lookup ?hv it = None \<and> lookup h'' it = Some (ValueIterator (map snd m)) \<and>
      (it, ?n) \<in> set (ties h'') \<and> (?n, a) \<in> set (ties h'') \<and>
      (\<forall>roots. live h'' roots it \<longrightarrow>
         deref (collect roots h'') a = Some m \<and>
         lookup (collect roots h'') ?n = Some (ValueView_object (ValueView a)))"
    unfolding ValueView_iter_def
    by (rule view_nurse_protects)
      (simp_all add: deref_new [OF assms] ties_new ValueView_iter_fn_def lookup_new
        make_iterators_whole)
  have ii: "\<exists>it h''. ItemView_iter ?hi ?n = Some (it, h'') \<and>
      lookup ?hi it = None \<and> lookup h'' it = Some (ItemIterator m) \<and>
      (it, ?n) \<in> set (ties h'') \<and> (?n, a) \<in> set (ties h'') \<and>
      (\<forall>roots. live h'' roots it \<longrightarrow>
         deref (collect roots h'') a = Some m \<and>
         lookup (collect roots h'') ?n = Some (ItemView_object (ItemView a)))"
    unfolding ItemView_iter_def
    by (rule view_nurse_protects)
      (simp_all add: deref_new [OF assms] ties_new ItemView_iter_fn_def lookup_new
        make_iterators_whole)
  have k: "\<exists>kv h'. Map_keys h a = Some (kv, h') \<and>
      lookup h kv = None \<and> lookup h' kv = Some (KeyView_object (KeyView a)) \<and>
      (kv, a) \<in> set (ties h') \<and>
      (\<forall>roots. live h' roots kv \<longrightarrow> deref (collect roots h') a = Some m) \<and>
      (\<exists>it h''. KeyView_iter h' kv = Some (it, h'') \<and>
         lookup h' it = None \<and> lookup h'' it = Some (KeyIterator (map fst m)) \<and>
         (it, kv) \<in> set (ties h'') \<and> (kv, a) \<in> set (ties h'') \<and>
         (\<forall>roots. live h'' roots it \<longrightarrow>
            deref (collect roots h'') a = Some m \<and>
            lookup (collect roots h'') kv = Some (KeyView_object (KeyView a))))"
    using ki nurse_fresh_tied [OF assms, of "KeyView_object (KeyView a)"]
    by (simp only: Map_keys_result [OF assms]) blast
  have v: "\<exists>vv h'. Map_values h a = Some (vv, h') \<and>
      lookup h vv = None \<and> lookup h' vv = Some (ValueView_object (ValueView a)) \<and>
      (vv, a) \<in> set (ties h') \<and>
      (\<forall>roots. live h' roots vv \<longrightarrow> deref (collect roots h') a = Some m) \<and>
      (\<exists>it h''. ValueView_iter h' vv = Some (it, h'') \<and>
         lookup h' it = None \<and> lookup h'' it = Some (ValueIterator (map snd m)) \<and>
         (it, vv) \<in> set (ties h'') \<and> (vv, a) \<in> set (ties h'') \<and>
         (\<forall>roots. live h'' roots it \<longrightarrow>
            deref (collect roots h'') a = Some m \<and>
            lookup (collect roots h'') vv = Some (ValueView_object (ValueView a))))"
    using vi nurse_fresh_tied [OF assms, of "ValueView_object (ValueView a)"]
    by (simp only: Map_values_result [OF assms]) blast
  have i: "\<exists>iv h'. Map_items h a = Some (iv, h') \<and>
      lookup h iv = None \<and> lookup h' iv = Some (ItemView_object (ItemView a)) \<and>
      (iv, a) \<in> set (ties h') \<and>
      (\<forall>roots. live h' roots iv \<longrightarrow> deref (collect roots h') a = Some m) \<and>
      (\<exists>it h''. ItemView_iter h' iv = Some (it, h'') \<and>
         lookup h' it = None \<and> lookup h'' it = Some (ItemIterator m) \<and>
         (it, iv) \<in> set (ties h'') \<and> (iv, a) \<in> set (ties h'') \<and>
         (\<forall>roots. live h'' roots it \<longrightarrow>
            deref (collect roots h'') a = Some m \<and>
            lookup (collect roots h'') iv = Some (ItemView_object (ItemView a))))"
    using ii nurse_fresh_tied [OF assms, of "ItemView_object (ItemView a)"]
    by (simp only: Map_items_result [OF assms]) blast
  have s: "\<exists>it h'. Map_iter_object h a = Some (it, h') \<and>
      lookup h it = None \<and> lookup h' it = Some (KeyIterator (map fst m)) \<and>
      (it, a) \<in> set (ties h') \<and>
      (\<forall>roots. live h' roots it \<longrightarrow> deref (collect roots h') a = Some m)"
    using nurse_fresh_tied [OF assms, of "KeyIterator (map fst m)"]
    by (simp only: Map_iter_object_result [OF assms]) blast
  from k v i s show ?thesis by (intro conjI)
qed

theorem derived_objects_keep_map_alive_witness:
  "deref example_heap 0 = Some example_map \<and>
   Map_keys example_heap 0 =
     Some (1, \<lparr>objects = [Some (Map_object example_map), Some (KeyView_object (KeyView 0))],
               ties = [(1, 0)]\<rparr>) \<and>
   lookup example_heap 1 = None \<and>
   live \<lparr>objects = [Some (Map_object example_map), Some (KeyView_object (KeyView 0))],
         ties = [(1, 0)]\<rparr> [1] 1 \<and>
   deref (collect [1]
     \<lparr>objects = [Some (Map_object example_map), Some (KeyView_object (KeyView 0))],
      ties = [(1, 0)]\<rparr>) 0 = Some example_map \<and>
   KeyView_iter
     \<lparr>objects = [Some (Map_object example_map), Some (KeyView_object (KeyView 0))],
      ties = [(1, 0)]\<rparr> 1 =
     Some (2, \<lparr>objects = [Some (Map_object example_map), Some (KeyView_object (KeyView 0)),
                           Some (KeyIterator [1, 3])],
               ties = [(2, 1), (1, 0)]\<rparr>) \<and>
   live \<lparr>objects = [Some (Map_object example_map), Some (KeyView_object (KeyView 0)),
                    Some (KeyIterator [1, 3])],
         ties = [(2, 1), (1, 0)]\<rparr> [2] 2 \<and>
   deref (collect [2]
     \<lparr>objects = [Some (Map_object example_map), Some (KeyView_object (KeyView 0)),
                 Some (KeyIterator [1, 3])],
      ties = [(2, 1), (1, 0)]\<rparr>) 0 = Some example_map \<and>
   lookup (collect [2]
     \<lparr>objects = [Some (Map_object example_map), Some (KeyView_object (KeyView 0)),
                 Some (KeyIterator [1, 3])],
      ties = [(2, 1), (1, 0)]\<rparr>) 1 = Some (KeyView_object (KeyView 0)) \<and>
   Map_iter_object example_heap 0 =
     Some (1, \<lparr>objects = [Some (Map_object example_map), Some (KeyIterator [1, 3])],
               ties = [(1, 0)]\<rparr>) \<and>
   live \<lparr>objects = [Some (Map_object example_map), Some (KeyIterator [1, 3])],
         ties = [(1, 0)]\<rparr> [1] 1 \<and>
   deref (collect [1]
     \<lparr>objects = [Some (Map_object example_map), Some (KeyIterator [1, 3])],
      ties = [(1, 0)]\<rparr>) 0 = Some example_map"
proof -
  let ?h1 = "\<lparr>objects = [Some (Map_object example_map), Some (KeyView_object (KeyView 0))],
              ties = [(1, 0)]\<rparr>"
  let ?h2 = "\<lparr>objects = [Some (Map_object example_map), Some (KeyView_object (KeyView 0)),
                          Some (KeyIterator [1, 3])],
              ties = [(2, 1), (1, 0)]\<rparr>"
  let ?h3 = "\<lparr>objects = [Some (Map_object example_map), Some (KeyIterator [1, 3])],
              ties = [(1, 0)]\<rparr>"
  have d: "deref example_heap 0 = Some example_map"
    by (simp add: deref_def lookup_def example_heap_def)
  have f: "lookup example_heap 1 = None"
    by (simp add: lookup_def example_heap_def)
  have k: "Map_keys example_heap 0 = Some (1, ?h1)"
    by (simp add: Map_keys_def keys_fn_def def_keep_alive_0_1_def alloc_def keep_alive_def
        deref_def lookup_def example_heap_def)
  have i: "KeyView_iter ?h1 1 = Some (2, ?h2)"
    by (simp add: KeyView_iter_def KeyView_iter_fn_def def_keep_alive_0_1_def alloc_def
        keep_alive_def deref_def lookup_def make_key_iterator_def m_begin_def m_end_def
        example_map_def)
  have s: "Map_iter_object example_heap 0 = Some (1, ?h3)"
    by (simp add: Map_iter_object_def Map_iter_fn_def Map_iter_def def_keep_alive_0_1_def
        alloc_def keep_alive_def deref_def lookup_def make_key_iterator_def m_begin_def
        m_end_def example_heap_def example_map_def)
  have l1: "live ?h1 [1] 1" by (rule live.root) simp
  have l2: "live ?h2 [2] 2" by (rule live.root) simp
  have l3: "live ?h3 [1] 1" by (rule live.root) simp
  obtain kv h' it h''
    where k': "Map_keys example_heap 0 = Some (kv, h')"
      and p1: "\<forall>roots. live h' roots kv \<longrightarrow> deref (collect roots h') 0 = Some example_map"
      and i': "KeyView_iter h' kv = Some (it, h'')"
      and p2: "\<forall>roots. live h'' roots it \<longrightarrow>
                 deref (collect roots h'') 0 = Some example_map \<and>
                 lookup (collect roots h'') kv = Some (KeyView_object (KeyView 0))"
    using derived_objects_keep_map_alive [OF d] by blast
  obtain it3 h3
    where s': "Map_iter_object example_heap 0 = Some (it3, h3)"
      and p3: "\<forall>roots. live h3 roots it3 \<longrightarrow> deref (collect roots h3) 0 = Some example_map"
    using derived_objects_keep_map_alive [OF d] by blast
  have e1: "kv = 1 \<and> h' = ?h1" using k k' by auto
  then have e2: "it = 2 \<and> h'' = ?h2" using i i' by auto
  have e3: "it3 = 1 \<and> h3 = ?h3" using s s' by auto
  have "deref (collect [1] ?h1) 0 = Some example_map"
    "deref (collect [2] ?h2) 0 = Some example_map"
    "lookup (collect [2] ?h2) 1 = Some (KeyView_object (KeyView 0))"
    "deref (collect [1] ?h3) 0 = Some example_map"
    using e1 e2 e3 p1 p2 p3 l1 l2 l3 by blast+
  then show ?thesis using d f k i s l1 l2 l3 by simp
qed

end
